theory Spec2Isabelle
  imports Main "HOL-Library.Sublist" "HOL-Library.AList"
begin

text \<open>
  A model of \<^verbatim>\<open>main.py\<close>: a service that stages the source of a smart contract (fetched
  from a block explorer, or given in the request), selects the compiler version, runs the
  analysis engine and removes what it staged. The functions of the program are
  \<open>get_contract_code\<close>, \<open>analyze_contract_code\<close>, \<open>get_solidity_version\<close>,
  \<open>delete_contract_directory\<close> and \<open>analyze_contract\<close>; the file system and the working
  directory are part of an explicit process state, and the libraries the program calls
  are parameters.
\<close>

section \<open>Strings and regular expressions\<close>

text \<open>
  Python strings are modelled as \<^typ>\<open>string\<close>; a character is a code point below 256,
  so the only decimal digits (\<^verbatim>\<open>\d\<close>) are \<^verbatim>\<open>0\<close> to \<^verbatim>\<open>9\<close>. The test
  \<^verbatim>\<open>needle in haystack\<close> is \<^const>\<open>sublist\<close>.
\<close>

text \<open>\<^verbatim>\<open>s.split(sep)\<close> for a one-character separator.\<close>

fun split_on :: "char \<Rightarrow> string \<Rightarrow> string list" where
  "split_on sep [] = [[]]"
| "split_on sep (c # cs) =
     (if c = sep then [] # split_on sep cs
      else (case split_on sep cs of
              [] \<Rightarrow> [[c]]
            | x # xs \<Rightarrow> (c # x) # xs))"

text \<open>
  Iterating over a file opened in text mode: universal newlines, so a line ends after
  \<^verbatim>\<open>\n\<close>, \<^verbatim>\<open>\r\n\<close> or \<^verbatim>\<open>\r\<close>, and each of these terminators is read as \<^verbatim>\<open>\n\<close>.
\<close>

fun text_lines_from :: "string \<Rightarrow> string \<Rightarrow> string list" where
  "text_lines_from acc [] = (if acc = [] then [] else [rev acc])"
| "text_lines_from acc (c # cs) =
     (if c = CHR 0x0A then rev (CHR 0x0A # acc) # text_lines_from [] cs
      else if c = CHR 0x0D
        then rev (CHR 0x0A # acc) #
             text_lines_from [] (if cs \<noteq> [] \<and> hd cs = CHR 0x0A then tl cs else cs)
      else text_lines_from (c # acc) cs)"

definition text_lines :: "string \<Rightarrow> string list" where
  "text_lines s = text_lines_from [] s"

definition is_digit :: "char \<Rightarrow> bool" where
  "is_digit c = (c \<in> set ''0123456789'')"

definition digits :: "string \<Rightarrow> bool" where
  "digits s = (s \<noteq> [] \<and> list_all is_digit s)"

text \<open>
  The regular expressions of the program are sequences of single characters and of
  greedy repetitions \<^verbatim>\<open>x+\<close> of a single character class. \<open>re_match\<close> is the
  backtracking matcher of \<^verbatim>\<open>re\<close> at the start of the text (a repetition first tries to
  take one more character, and gives it back if the rest fails); it returns the matched
  text. \<open>re_search\<close> tries every start position from the left.
\<close>

datatype atom = Lit char | Digit

datatype item = One atom | Plus atom

fun atom_ok :: "atom \<Rightarrow> char \<Rightarrow> bool" where
  "atom_ok (Lit a) c = (c = a)"
| "atom_ok Digit c = is_digit c"

fun re_match :: "item list \<Rightarrow> string \<Rightarrow> string option" where
  "re_match [] s = Some []"
| "re_match (One a # r) [] = None"
| "re_match (One a # r) (c # cs) =
     (if atom_ok a c then map_option ((#) c) (re_match r cs) else None)"
| "re_match (Plus a # r) [] = None"
| "re_match (Plus a # r) (c # cs) =
     (if atom_ok a c
      then (case re_match (Plus a # r) cs of
              Some m \<Rightarrow> Some (c # m)
            | None \<Rightarrow> map_option ((#) c) (re_match r cs))
      else None)"

fun re_search :: "item list \<Rightarrow> string \<Rightarrow> string option" where
  "re_search p [] = re_match p []"
| "re_search p (c # cs) =
     (case re_match p (c # cs) of Some m \<Rightarrow> Some m | None \<Rightarrow> re_search p cs)"

text \<open>The pattern \<^verbatim>\<open>\d+\.\d+\.\d+\<close>.\<close>

definition version_re :: "item list" where
  "version_re =
     [Plus Digit, One (Lit (CHR ''.'')), Plus Digit, One (Lit (CHR ''.'')), Plus Digit]"

text \<open>
  \<^verbatim>\<open>get_solidity_version\<close>: the pattern is \<^verbatim>\<open>v(\d+\.\d+\.\d+)\<close>; group 1 spans
  everything after the leading \<^verbatim>\<open>v\<close> of the match.
\<close>

definition get_solidity_version :: "string \<Rightarrow> string" where
  "get_solidity_version compiler_version =
     (case re_search (One (Lit (CHR ''v'')) # version_re) compiler_version of
        Some version \<Rightarrow> drop 1 version
      | None \<Rightarrow> [])"


section \<open>The process state: file system, working directory, output, compiler\<close>

datatype error =
    KeyError | ValueError | IndexError | AttributeError
  | FileNotFoundError | FileExistsError | NotADirectoryError | IsADirectoryError
  | PermissionError
  | LibraryError string

text \<open>
  A path of the file system is the list of names from the root. The tree is an
  association list from paths to nodes; the root always exists and is a directory.
  \<open>undeletable\<close> lists the paths the operating system refuses to remove.
\<close>

type_synonym path = "string list"

datatype node = File string | Dir

datatype out = Line string | FailedToDelete string error

record world =
  tree :: "(path \<times> node) list"
  cwd :: path
  undeletable :: "path list"
  stdout :: "out list"
  solc_version :: string

definition lookup :: "world \<Rightarrow> path \<Rightarrow> node option" where
  "lookup w p = (if p = [] then Some Dir else map_of (tree w) p)"

text \<open>
  Path resolution: the names of the path are walked from the working directory (from the
  root for an absolute path); every directory passed through must exist.
\<close>

fun walk :: "world \<Rightarrow> path \<Rightarrow> string list \<Rightarrow> error + path" where
  "walk w cur [] = Inr cur"
| "walk w cur (c # cs) =
     (case lookup w cur of
        None \<Rightarrow> Inl FileNotFoundError
      | Some (File _) \<Rightarrow> Inl NotADirectoryError
      | Some Dir \<Rightarrow>
          if c = [] \<or> c = ''.'' then walk w cur cs
          else if c = ''..'' then walk w (butlast cur) cs
          else walk w (cur @ [c]) cs)"

definition resolve :: "world \<Rightarrow> string \<Rightarrow> error + path" where
  "resolve w p =
     (if p = [] then Inl FileNotFoundError
      else walk w (if hd p = CHR ''/'' then [] else cwd w) (split_on (CHR ''/'') p))"

definition os_path_exists :: "world \<Rightarrow> string \<Rightarrow> bool" where
  "os_path_exists w p = (case resolve w p of Inl _ \<Rightarrow> False | Inr q \<Rightarrow> lookup w q \<noteq> None)"

definition os_path_isdir :: "world \<Rightarrow> string \<Rightarrow> bool" where
  "os_path_isdir w p = (case resolve w p of Inl _ \<Rightarrow> False | Inr q \<Rightarrow> lookup w q = Some Dir)"

definition os_path_isfile :: "world \<Rightarrow> string \<Rightarrow> bool" where
  "os_path_isfile w p =
     (case resolve w p of Inl _ \<Rightarrow> False
      | Inr q \<Rightarrow> (case lookup w q of Some (File _) \<Rightarrow> True | _ \<Rightarrow> False))"

text \<open>The model has no symbolic links.\<close>

definition os_path_islink :: "world \<Rightarrow> string \<Rightarrow> bool" where
  "os_path_islink w p = False"

text \<open>\<^verbatim>\<open>os.path.dirname\<close> and \<^verbatim>\<open>os.path.join\<close> of \<^verbatim>\<open>posixpath\<close>.\<close>

definition os_path_dirname :: "string \<Rightarrow> string" where
  "os_path_dirname p =
     (let head = rev (dropWhile (\<lambda>c. c \<noteq> CHR ''/'') (rev p))
      in if list_all (\<lambda>c. c = CHR ''/'') head then head
         else rev (dropWhile (\<lambda>c. c = CHR ''/'') (rev head)))"

definition os_path_join :: "string \<Rightarrow> string \<Rightarrow> string" where
  "os_path_join a b =
     (if b \<noteq> [] \<and> hd b = CHR ''/'' then b
      else if a = [] \<or> last a = CHR ''/'' then a @ b
      else a @ ''/'' @ b)"

text \<open>
  A statement gives an exception or a value, and the process state it leaves; an
  exception ends the function, the state staying as it then is.
\<close>

type_synonym 'a result = "(error + 'a) \<times> world"

text \<open>
  \<^verbatim>\<open>os.makedirs(name)\<close>: every missing directory on the way is created; the call
  raises when the leaf already exists.
\<close>

fun makedirs_walk :: "path \<Rightarrow> string list \<Rightarrow> world \<Rightarrow> unit result" where
  "makedirs_walk cur [] w = (Inr (), w)"
| "makedirs_walk cur (c # cs) w =
     (case lookup w cur of
        None \<Rightarrow> (Inl FileNotFoundError, w)
      | Some (File _) \<Rightarrow> (Inl NotADirectoryError, w)
      | Some Dir \<Rightarrow>
          if c = [] \<or> c = ''.'' then makedirs_walk cur cs w
          else if c = ''..'' then makedirs_walk (butlast cur) cs w
          else if lookup w (cur @ [c]) = None
            then makedirs_walk (cur @ [c]) cs (w\<lparr>tree := tree w @ [(cur @ [c], Dir)]\<rparr>)
          else makedirs_walk (cur @ [c]) cs w)"

definition os_makedirs :: "world \<Rightarrow> string \<Rightarrow> unit result" where
  "os_makedirs w p =
     (if p = [] then (Inl FileNotFoundError, w)
      else if os_path_exists w p then (Inl FileExistsError, w)
      else makedirs_walk (if hd p = CHR ''/'' then [] else cwd w) (split_on (CHR ''/'') p) w)"

definition os_chdir :: "world \<Rightarrow> string \<Rightarrow> error + world" where
  "os_chdir w p =
     (case resolve w p of
        Inl e \<Rightarrow> Inl e
      | Inr q \<Rightarrow>
          (case lookup w q of
             None \<Rightarrow> Inl FileNotFoundError
           | Some (File _) \<Rightarrow> Inl NotADirectoryError
           | Some Dir \<Rightarrow> Inr (w\<lparr>cwd := q\<rparr>)))"

text \<open>
  \<^verbatim>\<open>with open(p, "w") as f: f.writelines(lines)\<close>: the file is created or truncated and
  holds the concatenation of the items written.
\<close>

definition open_write :: "world \<Rightarrow> string \<Rightarrow> string \<Rightarrow> error + world" where
  "open_write w p content =
     (case resolve w p of
        Inl e \<Rightarrow> Inl e
      | Inr q \<Rightarrow>
          (case lookup w q of
             Some Dir \<Rightarrow> Inl IsADirectoryError
           | _ \<Rightarrow> Inr (w\<lparr>tree := AList.update q (File content) (tree w)\<rparr>)))"

definition open_read :: "world \<Rightarrow> string \<Rightarrow> error + string" where
  "open_read w p =
     (case resolve w p of
        Inl e \<Rightarrow> Inl e
      | Inr q \<Rightarrow>
          (case lookup w q of
             None \<Rightarrow> Inl FileNotFoundError
           | Some Dir \<Rightarrow> Inl IsADirectoryError
           | Some (File content) \<Rightarrow> Inr content))"

definition os_listdir :: "world \<Rightarrow> string \<Rightarrow> error + string list" where
  "os_listdir w p =
     (case resolve w p of
        Inl e \<Rightarrow> Inl e
      | Inr q \<Rightarrow>
          (case lookup w q of
             None \<Rightarrow> Inl FileNotFoundError
           | Some (File _) \<Rightarrow> Inl NotADirectoryError
           | Some Dir \<Rightarrow>
               Inr (map (\<lambda>e. last (fst e))
                      (filter (\<lambda>e. fst e \<noteq> [] \<and> butlast (fst e) = q) (tree w)))))"

definition os_unlink :: "world \<Rightarrow> string \<Rightarrow> error + world" where
  "os_unlink w p =
     (case resolve w p of
        Inl e \<Rightarrow> Inl e
      | Inr q \<Rightarrow>
          (case lookup w q of
             None \<Rightarrow> Inl FileNotFoundError
           | Some Dir \<Rightarrow> Inl IsADirectoryError
           | Some (File _) \<Rightarrow>
               if q \<in> set (undeletable w) then Inl PermissionError
               else Inr (w\<lparr>tree := filter (\<lambda>e. fst e \<noteq> q) (tree w)\<rparr>)))"

text \<open>
  \<^verbatim>\<open>shutil.rmtree(p)\<close> removes the directory and everything below it. It raises when
  something at or below the directory cannot be removed; what the call removed before
  it raised is not tracked: the tree is then left as it was.
\<close>

definition shutil_rmtree :: "world \<Rightarrow> string \<Rightarrow> error + world" where
  "shutil_rmtree w p =
     (case resolve w p of
        Inl e \<Rightarrow> Inl e
      | Inr q \<Rightarrow>
          (case lookup w q of
             None \<Rightarrow> Inl FileNotFoundError
           | Some (File _) \<Rightarrow> Inl NotADirectoryError
           | Some Dir \<Rightarrow>
               if list_ex (prefix q) (undeletable w) then Inl PermissionError
               else Inr (w\<lparr>tree := filter (\<lambda>e. \<not> prefix q (fst e)) (tree w)\<rparr>)))"

definition print :: "out \<Rightarrow> world \<Rightarrow> world" where
  "print l w = w\<lparr>stdout := stdout w @ [l]\<rparr>"


section \<open>The libraries the program calls\<close>

text \<open>
  The explorer's answer: \<open>status_code\<close>, and what reading
  \<^verbatim>\<open>response.json()["result"][0]\<close> and its three fields gives (an error when the body has
  another shape).
\<close>

record api_record =
  SourceCode :: string
  CompilerVersion :: string
  ContractName :: string

record response =
  status_code :: int
  json_result :: "error + api_record"

text \<open>
  A raw finding of the analysis engine is a dictionary; the program reads four of its
  keys.
\<close>

type_synonym 'v issue = "string \<rightharpoonup> 'v"

text \<open>
  The libraries are parameters of the program:
  \<^item> \<open>environ\<close>: \<^verbatim>\<open>os.environ\<close>;
  \<^item> \<open>requests_get\<close>: \<^verbatim>\<open>requests.get(url)\<close>;
  \<^item> \<open>json_sources\<close>: \<^verbatim>\<open>json.loads(text)['sources']\<close> with the \<^verbatim>\<open>'content'\<close> of every
    entry, as the list of pairs of file name and content in the dictionary's order;
  \<^item> \<open>switch_global_version\<close>: whether \<^verbatim>\<open>solc_select.switch_global_version(v, True)\<close>
    raises;
  \<^item> \<open>run_slither\<close>: \<^verbatim>\<open>Slither(contract)\<close> with every detector registered, and
    \<^verbatim>\<open>run_detectors()\<close>;
  \<^item> \<open>b64decode\<close>: \<^verbatim>\<open>base64.b64decode(code).decode('utf-8')\<close>.
\<close>

record 'v ext =
  environ :: "string \<rightharpoonup> string"
  requests_get :: "string \<Rightarrow> error + response"
  json_sources :: "string \<Rightarrow> error + (string \<times> string) list"
  switch_global_version :: "string \<Rightarrow> error option"
  run_slither :: "world \<Rightarrow> string \<Rightarrow> error + 'v issue list list"
  b64decode :: "string \<Rightarrow> error + string"


section \<open>Running statements in sequence\<close>

definition and_then :: "'a result \<Rightarrow> ('a \<Rightarrow> world \<Rightarrow> 'b result) \<Rightarrow> 'b result" where
  "and_then m f = (case m of (Inl e, w) \<Rightarrow> (Inl e, w) | (Inr x, w) \<Rightarrow> f x w)"

text \<open>A call that either raises, changing nothing, or gives the new state.\<close>

definition lift :: "error + world \<Rightarrow> world \<Rightarrow> unit result" where
  "lift r w = (case r of Inl e \<Rightarrow> (Inl e, w) | Inr w' \<Rightarrow> (Inr (), w'))"

definition lift_value :: "error + 'a \<Rightarrow> world \<Rightarrow> 'a result" where
  "lift_value r w = (case r of Inl e \<Rightarrow> (Inl e, w) | Inr x \<Rightarrow> (Inr x, w))"

text \<open>Truth value of an optional string (\<^verbatim>\<open>None\<close> and \<^verbatim>\<open>""\<close> are false).\<close>

definition falsy :: "string option \<Rightarrow> bool" where
  "falsy x = (x = None \<or> x = Some [])"

text \<open>How an f-string formats an optional string.\<close>

definition py_str :: "string option \<Rightarrow> string" where
  "py_str x = (case x of None \<Rightarrow> ''None'' | Some s \<Rightarrow> s)"

text \<open>\<^verbatim>\<open>str.upper\<close>, on ASCII letters (other characters are left as they are).\<close>

definition upper_char :: "char \<Rightarrow> char" where
  "upper_char c =
     (case map_of (zip ''abcdefghijklmnopqrstuvwxyz'' ''ABCDEFGHIJKLMNOPQRSTUVWXYZ'') c of
        Some u \<Rightarrow> u
      | None \<Rightarrow> c)"

definition upper :: "string \<Rightarrow> string" where
  "upper s = map upper_char s"

text \<open>\<^verbatim>\<open>f.writelines(xs)\<close> writes the items one after the other; a string is iterated
  character by character.\<close>

definition writelines :: "string list \<Rightarrow> string" where
  "writelines xs = concat xs"

definition chars_of :: "string \<Rightarrow> string list" where
  "chars_of s = map (\<lambda>c. [c]) s"

definition solc_switch :: "'v ext \<Rightarrow> string \<Rightarrow> world \<Rightarrow> unit result" where
  "solc_switch ext v w =
     (case switch_global_version ext v of
        Some e \<Rightarrow> (Inl e, w)
      | None \<Rightarrow> (Inr (), w\<lparr>solc_version := v\<rparr>))"


section \<open>\<^verbatim>\<open>get_contract_code\<close>\<close>

text \<open>Lines 56 to 60 and 109 to 113: create the contract directory if it does not exist,
  and make it the working directory.\<close>

definition enter_directory :: "string \<Rightarrow> world \<Rightarrow> unit result" where
  "enter_directory d w =
     and_then (if \<not> os_path_exists w d then os_makedirs w d else (Inr (), w))
       (\<lambda>_ w. lift (os_chdir w d) w)"

text \<open>Lines 74 to 80: the scan for the main contract.\<close>

fun find_main_contract :: "string \<Rightarrow> string \<Rightarrow> (string \<times> string) list \<Rightarrow> string" where
  "find_main_contract contract_name main_contract [] = main_contract"
| "find_main_contract contract_name main_contract ((file_name, contract_lines) # rest) =
     find_main_contract contract_name
       (if sublist (''contract '' @ contract_name) contract_lines then file_name
        else main_contract)
       rest"

text \<open>Lines 87 to 91, and again 94 to 98.\<close>

definition write_source :: "string \<Rightarrow> string \<Rightarrow> world \<Rightarrow> unit result" where
  "write_source file_name contract_lines w =
     and_then
       (if \<not> os_path_exists w (os_path_dirname file_name)
        then os_makedirs w (os_path_dirname file_name) else (Inr (), w))
       (\<lambda>_ w. lift (open_write w file_name (writelines (chars_of contract_lines))) w)"

text \<open>Lines 82 to 98: the loop that writes every file.\<close>

fun stage_files :: "string \<Rightarrow> (string \<times> string) list \<Rightarrow> world \<Rightarrow> unit result" where
  "stage_files main_contract [] w = (Inr (), w)"
| "stage_files main_contract ((file_name, contract_lines) # rest) w =
     and_then
       (if main_contract = file_name then write_source file_name contract_lines w
        else write_source file_name contract_lines w)
       (\<lambda>_. stage_files main_contract rest)"

text \<open>Lines 63 to 69: a single file.\<close>

definition stage_single :: "string \<Rightarrow> string \<Rightarrow> world \<Rightarrow> string option result" where
  "stage_single contract_name contract_code w =
     (let contract_lines =
            [[CHR 0x0A], [CHR 0x0A], [CHR 0x0A], [CHR 0x0A]] @ split_on (CHR 0x0A) contract_code
      in and_then (lift (open_write w (contract_name @ ''.sol'') (writelines contract_lines)) w)
           (\<lambda>_ w. (Inr (Some (contract_name @ ''.sol'')), w)))"

text \<open>Lines 73 to 100: several files.\<close>

definition stage_multi :: "'v ext \<Rightarrow> string \<Rightarrow> string \<Rightarrow> world \<Rightarrow> string option result" where
  "stage_multi ext contract_name contract_code w =
     (case json_sources ext (butlast (tl contract_code)) of
        Inl e \<Rightarrow> (Inl e, w)
      | Inr contract_files \<Rightarrow>
          (let main_contract = find_main_contract contract_name [] contract_files
           in and_then (stage_files main_contract contract_files w)
                (\<lambda>_ w. (Inr (Some main_contract), w))))"

text \<open>Lines 46 to 103: what is done with the explorer's answer.\<close>

definition stage_response ::
  "'v ext \<Rightarrow> string \<Rightarrow> string option \<Rightarrow> response \<Rightarrow> world \<Rightarrow> string option result" where
  "stage_response ext blockchain contract_address resp w =
     (if status_code resp = 200 then
        (case json_result resp of
           Inl e \<Rightarrow> (Inl e, w)
         | Inr r \<Rightarrow>
             (let contract_code = SourceCode r;
                  compiler_version = CompilerVersion r;
                  contract_name = ContractName r;
                  solidity_version = get_solidity_version compiler_version
              in and_then (solc_switch ext solidity_version w)
                   (\<lambda>_ w. and_then
                      (enter_directory
                         (''contracts/'' @ blockchain @ ''/'' @ py_str contract_address) w)
                      (\<lambda>_ w.
                         if contract_code = [] then (Inl IndexError, w)
                         else if hd contract_code \<noteq> CHR ''{''
                           then stage_single contract_name contract_code w
                         else stage_multi ext contract_name contract_code w))))
      else (Inr None, print (Line ''Error: Unable to retrieve contract code'') w))"

text \<open>Lines 118 to 125: the version of the first line with a pragma.\<close>

fun pragma_version :: "string list \<Rightarrow> error + string" where
  "pragma_version [] = Inr []"
| "pragma_version (line # rest) =
     (if sublist ''pragma solidity'' line
      then (case re_search version_re line of
              None \<Rightarrow> Inl AttributeError
            | Some m \<Rightarrow> Inr m)
      else pragma_version rest)"

text \<open>Lines 106 to 130: the code is given.\<close>

definition stage_code :: "'v ext \<Rightarrow> string \<Rightarrow> world \<Rightarrow> string option result" where
  "stage_code ext code w =
     and_then (enter_directory ''contracts/no-bc/contract'' w)
       (\<lambda>_ w. and_then (lift (open_write w ''contract.sol'' (writelines (chars_of code))) w)
       (\<lambda>_ w. and_then (lift_value (open_read w ''contract.sol'') w)
       (\<lambda>f w. and_then (lift_value (pragma_version (text_lines f)) w)
       (\<lambda>solidity_version w. and_then (solc_switch ext solidity_version w)
       (\<lambda>_ w. (Inr (Some ''contract.sol''), w))))))"

definition get_contract_code ::
  "'v ext \<Rightarrow> string option \<Rightarrow> string option \<Rightarrow> string option \<Rightarrow> world
     \<Rightarrow> string option result" where
  "get_contract_code ext blockchain contract_address code w =
     (if falsy code then
        (case blockchain of
           None \<Rightarrow> (Inl AttributeError, w)
         | Some bc \<Rightarrow>
             (case environ ext (upper bc) of
                None \<Rightarrow> (Inl KeyError, w)
              | Some v \<Rightarrow>
                  (case split_on (CHR '','') v of
                     [api_url, api_key] \<Rightarrow>
                       (let url = ''https://'' @ api_url
                              @ ''/api?module=contract&action=getsourcecode&address=''
                              @ py_str contract_address @ ''&apikey='' @ api_key
                        in case requests_get ext url of
                             Inl e \<Rightarrow> (Inl e, w)
                           | Inr resp \<Rightarrow> stage_response ext bc contract_address resp w)
                   | _ \<Rightarrow> (Inl ValueError, w))))
      else stage_code ext (the code) w)"


section \<open>\<^verbatim>\<open>analyze_contract_code\<close>\<close>

text \<open>Lines 161 to 166: the dictionary built from one raw finding; a missing key raises.\<close>

definition filtered_result :: "'v issue \<Rightarrow> error + 'v issue" where
  "filtered_result issue =
     (case issue ''check'' of None \<Rightarrow> Inl KeyError | Some c \<Rightarrow>
      (case issue ''description'' of None \<Rightarrow> Inl KeyError | Some d \<Rightarrow>
       (case issue ''impact'' of None \<Rightarrow> Inl KeyError | Some i \<Rightarrow>
        (case issue ''confidence'' of None \<Rightarrow> Inl KeyError | Some cf \<Rightarrow>
           Inr [''check'' \<mapsto> c, ''description'' \<mapsto> d, ''impact'' \<mapsto> i,
                ''confidence'' \<mapsto> cf]))))"

text \<open>Lines 160 to 167: the loop over one group.\<close>

fun filter_issues :: "'v issue list \<Rightarrow> 'v issue list \<Rightarrow> error + 'v issue list" where
  "filter_issues [] filtered_results = Inr filtered_results"
| "filter_issues (issue # rest) filtered_results =
     (case filtered_result issue of
        Inl e \<Rightarrow> Inl e
      | Inr r \<Rightarrow> filter_issues rest (filtered_results @ [r]))"

text \<open>Lines 157 to 169: the loop over the groups.\<close>

fun filter_results :: "'v issue list list \<Rightarrow> 'v issue list \<Rightarrow> error + 'v issue list" where
  "filter_results [] filtered_results = Inr filtered_results"
| "filter_results (result # rest) filtered_results =
     (if result \<noteq> []
      then (case filter_issues result filtered_results of
              Inl e \<Rightarrow> Inl e
            | Inr filtered_results' \<Rightarrow> filter_results rest filtered_results')
      else filter_results rest filtered_results)"

definition analyze_contract_code ::
  "'v ext \<Rightarrow> string \<Rightarrow> world \<Rightarrow> error + 'v issue list" where
  "analyze_contract_code ext contract w =
     (case run_slither ext w contract of
        Inl e \<Rightarrow> Inl e
      | Inr results \<Rightarrow> filter_results results [])"


section \<open>\<^verbatim>\<open>delete_contract_directory\<close>\<close>

text \<open>Lines 206 to 214: the loop over the listing.\<close>

fun delete_entries :: "string list \<Rightarrow> world \<Rightarrow> world" where
  "delete_entries [] w = w"
| "delete_entries (filename # rest) w =
     (let file_path = os_path_join ''.'' filename
      in delete_entries rest
           (if os_path_isfile w file_path \<or> os_path_islink w file_path then
              (case os_unlink w file_path of
                 Inl e \<Rightarrow> print (FailedToDelete file_path e) w
               | Inr w' \<Rightarrow> w')
            else if os_path_isdir w file_path then
              (case shutil_rmtree w file_path of
                 Inl e \<Rightarrow> print (FailedToDelete file_path e) w
               | Inr w' \<Rightarrow> w')
            else w))"

definition delete_contract_directory :: "world \<Rightarrow> unit result" where
  "delete_contract_directory w =
     and_then (lift (os_chdir w ''..'') w)
       (\<lambda>_ w. and_then (lift_value (os_listdir w ''.'') w)
       (\<lambda>names w. lift (os_chdir (delete_entries names w) ''../..'') (delete_entries names w)))"


section \<open>\<^verbatim>\<open>analyze_contract\<close>\<close>

record request =
  arg_blockchain :: "string option"
  arg_contract :: "string option"
  arg_code :: "string option"

datatype 'v reply = Result "'v issue list" | Error400 string

text \<open>Lines 258 to 263 and 267 to 272. An exception that leaves the function is the
  \<open>Inl\<close> result (the framework answers it with a server error).\<close>

definition analyze_staged ::
  "'v ext \<Rightarrow> string option result \<Rightarrow> 'v reply result" where
  "analyze_staged ext staged =
     and_then staged
       (\<lambda>contract w.
          if falsy contract then (Inr (Error400 ''Unable to retrieve contract code''), w)
          else and_then (lift_value (analyze_contract_code ext (the contract) w) w)
                 (\<lambda>slither_result w. and_then (delete_contract_directory w)
                 (\<lambda>_ w. (Inr (Result slither_result), w))))"

definition analyze_contract :: "'v ext \<Rightarrow> request \<Rightarrow> world \<Rightarrow> 'v reply result" where
  "analyze_contract ext req w =
     (let blockchain = arg_blockchain req;
          contract_address = arg_contract req;
          code = arg_code req
      in if falsy blockchain \<or> falsy contract_address then
           (if \<not> falsy code then
              and_then (lift_value (b64decode ext (the code)) (print (Line (the code)) w))
                (\<lambda>decoded_code w.
                   analyze_staged ext
                     (get_contract_code ext blockchain contract_address (Some decoded_code)
                        (print (Line decoded_code) w)))
            else (Inr (Error400 ''Missing blockchain or contract address''), w))
         else analyze_staged ext (get_contract_code ext blockchain contract_address None w))"


section \<open>Auxiliary notions for the statements\<close>

text \<open>A three-component version: three non-empty runs of digits separated by dots.\<close>

definition is_version :: "string \<Rightarrow> bool" where
  "is_version m =
     (case split_on (CHR ''.'') m of
        [a, b, c] \<Rightarrow> digits a \<and> digits b \<and> digits c
      | _ \<Rightarrow> False)"

text \<open>
  What the matcher computes on a repetition followed by a literal that is outside the
  repeated class: the longest run, then the literal, then the rest of the pattern.
\<close>

definition plus_lit :: "atom \<Rightarrow> char \<Rightarrow> item list \<Rightarrow> string \<Rightarrow> string option" where
  "plus_lit a d r s =
     (case dropWhile (atom_ok a) s of
        [] \<Rightarrow> None
      | c # t \<Rightarrow>
          if takeWhile (atom_ok a) s \<noteq> [] \<and> c = d
          then map_option (\<lambda>m. takeWhile (atom_ok a) s @ d # m) (re_match r t)
          else None)"

text \<open>The four keys of a normalized finding.\<close>

definition four_keys :: "string set" where
  "four_keys = {''check'', ''description'', ''impact'', ''confidence''}"

text \<open>
  A name that path resolution takes as one step down: not empty, not \<^verbatim>\<open>.\<close> or
  \<^verbatim>\<open>..\<close>, without a slash.
\<close>

definition plain_name :: "string \<Rightarrow> bool" where
  "plain_name n = (n \<noteq> [] \<and> n \<noteq> ''.'' \<and> n \<noteq> ''..'' \<and> CHR ''/'' \<notin> set n)"


text \<open>Every name in the tree is a plain name, as in a real file system.\<close>

definition wf_names :: "world \<Rightarrow> bool" where
  "wf_names w = (\<forall>e\<in>set (tree w). \<forall>n\<in>set (fst e). plain_name n)"

text \<open>
  The removal of the entry \<open>q\<close> is refused: a file that is undeletable, or a directory
  with something undeletable at or below it.
\<close>

definition blocked :: "world \<Rightarrow> path \<Rightarrow> bool" where
  "blocked w q =
     (case lookup w q of
        None \<Rightarrow> False
      | Some (File _) \<Rightarrow> q \<in> set (undeletable w)
      | Some Dir \<Rightarrow> list_ex (prefix q) (undeletable w))"

text \<open>
  Removing the entry \<open>q\<close> removes the path \<open>p\<close>: the removal is not refused, and \<open>p\<close>
  is the file \<open>q\<close>, or is at or below the directory \<open>q\<close>.
\<close>

definition removes :: "world \<Rightarrow> path \<Rightarrow> path \<Rightarrow> bool" where
  "removes w q p =
     (\<not> blocked w q \<and>
      (case lookup w q of
         None \<Rightarrow> False
       | Some (File _) \<Rightarrow> p = q
       | Some Dir \<Rightarrow> prefix q p))"



text \<open>
  From \<open>w\<close> to \<open>w'\<close> the working directory is the same, every directory is still a
  directory, and the names stay plain.
\<close>

definition kept :: "world \<Rightarrow> world \<Rightarrow> bool" where
  "kept w w' =
     (cwd w' = cwd w
      \<and> (\<forall>p. lookup w p = Some Dir \<longrightarrow> lookup w' p = Some Dir)
      \<and> (wf_names w \<longrightarrow> wf_names w'))"

text \<open>
  The working directory of \<open>w\<close> is \<^verbatim>\<open>contracts/x/y\<close> below that of \<open>w0\<close>, and the
  directories on the way exist.
\<close>

definition three_below :: "world \<Rightarrow> world \<Rightarrow> bool" where
  "three_below w0 w =
     (\<exists>x y. cwd w = cwd w0 @ [''contracts'', x, y]
          \<and> lookup w (cwd w0 @ [''contracts'', x, y]) = Some Dir
          \<and> lookup w (cwd w0 @ [''contracts'', x]) = Some Dir
          \<and> lookup w (cwd w0 @ [''contracts'']) = Some Dir
          \<and> lookup w (cwd w0) = Some Dir)"

text \<open>
  From \<open>w\<close> to \<open>w'\<close> the working directory is the same and every file and directory is
  still there, unchanged.
\<close>

definition extends :: "world \<Rightarrow> world \<Rightarrow> bool" where
  "extends w w' = (cwd w' = cwd w \<and> (\<forall>p v. lookup w p = Some v \<longrightarrow> lookup w' p = Some v))"


section \<open>Concrete scenarios\<close>

text \<open>A process started in \<^verbatim>\<open>/app\<close>, with nothing staged.\<close>

definition demo_world :: world where
  "demo_world =
     \<lparr>tree = [([''app''], Dir)], cwd = [''app''], undeletable = [], stdout = [],
      solc_version = []\<rparr>"

text \<open>Detector results: two groups are empty, two hold one finding each.\<close>

definition demo_groups :: "string issue list list" where
  "demo_groups =
     [[],
      [[''check'' \<mapsto> ''reentrancy-eth'', ''description'' \<mapsto> ''Reentrancy in Vault.withdraw'',
        ''impact'' \<mapsto> ''High'', ''confidence'' \<mapsto> ''Medium'', ''id'' \<mapsto> ''7f3a'']],
      [],
      [[''check'' \<mapsto> ''solc-version'', ''description'' \<mapsto> ''Pragma version too recent'',
        ''impact'' \<mapsto> ''Informational'', ''confidence'' \<mapsto> ''High'']]]"

text \<open>The base64 texts the scenarios send, with what they decode to.\<close>

definition demo_base64 :: "(string \<times> string) list" where
  "demo_base64 =
     [(''cHJhZ21hIHNvbGlkaXR5IF4wLjguMTA7'', ''pragma solidity ^0.8.10;''),
      (''cHJhZ21hIHNvbGlkaXR5IF4wLjg7'', ''pragma solidity ^0.8;'')]"

text \<open>
  Libraries for the scenarios: the explorer of \<^verbatim>\<open>eth\<close> answers every request with
  status 200 and the record \<open>r\<close>, whose source, when it is a JSON text, decodes to the
  files \<open>files\<close>; every compiler version can be activated; the analysis gives
  \<open>demo_groups\<close>.
\<close>

definition demo_ext :: "api_record \<Rightarrow> (string \<times> string) list \<Rightarrow> string ext" where
  "demo_ext r files =
     \<lparr>environ = [''ETH'' \<mapsto> ''api.etherscan.io,KEY''],
      requests_get = (\<lambda>url. Inr \<lparr>status_code = 200, json_result = Inr r\<rparr>),
      json_sources = (\<lambda>text. Inr files),
      switch_global_version = (\<lambda>v. None),
      run_slither = (\<lambda>w contract. Inr demo_groups),
      b64decode = (\<lambda>code. case map_of demo_base64 code of
                             None \<Rightarrow> Inl (LibraryError ''binascii.Error'')
                           | Some text \<Rightarrow> Inr text)\<rparr>"

text \<open>A record for the scenarios in which the explorer is not asked.\<close>

definition no_record :: api_record where
  "no_record = \<lparr>SourceCode = [], CompilerVersion = [], ContractName = []\<rparr>"


text \<open>The state after the given code has been staged from \<open>demo_world\<close>.\<close>

definition staged_code_world :: "string \<Rightarrow> world" where
  "staged_code_world code =
     \<lparr>tree = [([''app''], Dir), ([''app'', ''contracts''], Dir),
              ([''app'', ''contracts'', ''no-bc''], Dir),
              ([''app'', ''contracts'', ''no-bc'', ''contract''], Dir),
              ([''app'', ''contracts'', ''no-bc'', ''contract'', ''contract.sol''], File code)],
      cwd = [''app'', ''contracts'', ''no-bc'', ''contract''], undeletable = [], stdout = [],
      solc_version = []\<rparr>"

text \<open>The state after the directory for given code has been entered from \<open>demo_world\<close>.\<close>

definition entered_code_world :: world where
  "entered_code_world =
     \<lparr>tree = [([''app''], Dir), ([''app'', ''contracts''], Dir),
              ([''app'', ''contracts'', ''no-bc''], Dir),
              ([''app'', ''contracts'', ''no-bc'', ''contract''], Dir)],
      cwd = [''app'', ''contracts'', ''no-bc'', ''contract''], undeletable = [], stdout = [],
      solc_version = []\<rparr>"

text \<open>
  The explorer's record of a contract in one file, of two lines separated by \<^verbatim>\<open>\n\<close>.
\<close>

definition single_record :: api_record where
  "single_record =
     \<lparr>SourceCode = ''// token'' @ [CHR 0x0A] @ ''contract Token {}'',
      CompilerVersion = ''v0.8.19+commit.7dd6d404'',
      ContractName = ''Token''\<rparr>"

text \<open>
  The explorer's record of a contract in several files; the files are what
  \<open>json_sources\<close> gives.
\<close>

definition multi_record :: "string \<Rightarrow> api_record" where
  "multi_record name =
     \<lparr>SourceCode = ''{{...}}'',
      CompilerVersion = ''v0.8.19+commit.7dd6d404'',
      ContractName = name\<rparr>"

text \<open>
  The state once the directory of contract \<^verbatim>\<open>0xabc\<close> on \<^verbatim>\<open>eth\<close> has been entered
  from \<open>demo_world\<close>.
\<close>

definition entered_world :: world where
  "entered_world =
     \<lparr>tree = [([''app''], Dir), ([''app'', ''contracts''], Dir),
              ([''app'', ''contracts'', ''eth''], Dir),
              ([''app'', ''contracts'', ''eth'', ''0xabc''], Dir)],
      cwd = [''app'', ''contracts'', ''eth'', ''0xabc''], undeletable = [], stdout = [],
      solc_version = ''0.8.19''\<rparr>"

text \<open>The state after \<open>single_record\<close> has been staged.\<close>

definition staged_single_world :: world where
  "staged_single_world =
     entered_world\<lparr>tree := tree entered_world @
        [([''app'', ''contracts'', ''eth'', ''0xabc'', ''Token.sol''],
          File ([CHR 0x0A, CHR 0x0A, CHR 0x0A, CHR 0x0A] @ ''// tokencontract Token {}''))]\<rparr>"

text \<open>The state after the one file \<^verbatim>\<open>src/Token.sol\<close> has been staged.\<close>

definition staged_multi_world :: world where
  "staged_multi_world =
     entered_world\<lparr>tree := tree entered_world @
        [([''app'', ''contracts'', ''eth'', ''0xabc'', ''src''], Dir),
         ([''app'', ''contracts'', ''eth'', ''0xabc'', ''src'', ''Token.sol''],
          File ''contract Token {}'')]\<rparr>"



section \<open>Properties of the regular expressions\<close>

lemma re_match_prefix: "re_match p s = Some m \<Longrightarrow> prefix m s"
  by (induction p s arbitrary: m rule: re_match.induct)
     (auto split: if_splits option.splits)

lemma re_match_plus_last:
  "re_match [Plus a] s =
     (if takeWhile (atom_ok a) s = [] then None else Some (takeWhile (atom_ok a) s))"
  by (induction s) (auto split: option.splits list.splits)

lemma re_match_one_lit:
  "re_match (One (Lit d) # r) s =
     (case s of [] \<Rightarrow> None | c # t \<Rightarrow> if c = d then map_option ((#) d) (re_match r t) else None)"
  by (cases s) auto

lemma re_match_plus_lit:
  assumes nd: "\<not> atom_ok a d"
  shows "re_match (Plus a # One (Lit d) # r) s = plus_lit a d r s"
proof (induction s)
  case Nil
  then show ?case by (simp add: plus_lit_def)
next
  case (Cons c cs)
  show ?case
  proof (cases "atom_ok a c")
    case False
    then show ?thesis by (simp add: plus_lit_def)
  next
    case True
    have step: "re_match (Plus a # One (Lit d) # r) (c # cs) =
        (case plus_lit a d r cs of
           Some m \<Rightarrow> Some (c # m)
         | None \<Rightarrow> map_option ((#) c) (re_match (One (Lit d) # r) cs))"
      using True Cons.IH by simp
    show ?thesis
    proof (cases "takeWhile (atom_ok a) cs = []")
      case empty: True
      then have dw: "dropWhile (atom_ok a) cs = cs"
        by (cases cs) (auto split: if_splits)
      have none: "plus_lit a d r cs = None"
        using empty by (simp add: plus_lit_def split: list.splits)
      show ?thesis
        unfolding step none
        using True empty dw nd
        by (simp add: plus_lit_def re_match_one_lit option.map_comp comp_def
                 split: list.splits)
    next
      case nonempty: False
      then obtain x t where cs: "cs = x # t" and ax: "atom_ok a x"
        by (cases cs) (auto split: if_splits)
      from ax nd have "x \<noteq> d" by auto
      then have fallback: "re_match (One (Lit d) # r) cs = None"
        by (simp add: cs)
      have "plus_lit a d r (c # cs) = map_option ((#) c) (plus_lit a d r cs)"
      proof (cases "dropWhile (atom_ok a) cs")
        case Nil
        show ?thesis by (simp add: plus_lit_def Nil True)
      next
        case (Cons y t')
        show ?thesis
          by (simp add: plus_lit_def Cons True nonempty option.map_comp comp_def)
      qed
      then show ?thesis
        unfolding step fallback by (simp split: option.splits)
    qed
  qed
qed

lemma digits_takeWhile:
  "digits a \<Longrightarrow> \<not> is_digit x \<Longrightarrow> takeWhile is_digit (a @ x # t) = a"
  by (simp add: digits_def list_all_iff)

lemma digits_dropWhile:
  "digits a \<Longrightarrow> \<not> is_digit x \<Longrightarrow> dropWhile is_digit (a @ x # t) = x # t"
  by (simp add: digits_def list_all_iff)

lemma digits_takeWhile_app:
  "digits c \<Longrightarrow> takeWhile is_digit (c @ rest) = c @ takeWhile is_digit rest"
  by (simp add: digits_def list_all_iff)

lemma dot_not_digit: "\<not> is_digit (CHR ''.'')" "\<not> atom_ok Digit (CHR ''.'')"
  by (simp_all add: is_digit_def)

lemma atom_ok_Digit: "atom_ok Digit = is_digit"
  by (rule ext) simp

lemma re_match_version_complete:
  assumes "digits a" "digits b" "digits c"
  shows "re_match version_re (a @ ''.'' @ b @ ''.'' @ c @ rest) =
           Some (a @ ''.'' @ b @ ''.'' @ c @ takeWhile is_digit rest)"
  using assms
  by (simp add: version_re_def re_match_plus_lit plus_lit_def re_match_plus_last dot_not_digit
        atom_ok_Digit digits_takeWhile digits_dropWhile digits_takeWhile_app)
     (simp add: digits_def)

lemma re_match_version_sound:
  assumes "re_match version_re s = Some m"
  shows "\<exists>a b c rest. s = m @ rest \<and> m = a @ ''.'' @ b @ ''.'' @ c
           \<and> digits a \<and> digits b \<and> digits c \<and> (rest = [] \<or> \<not> is_digit (hd rest))"
proof -
  let ?a = "takeWhile is_digit s"
  from assms obtain s2 where s2: "dropWhile is_digit s = CHR ''.'' # s2" and a: "?a \<noteq> []"
    and m2: "map_option (\<lambda>m. ?a @ CHR ''.'' # m)
               (re_match [Plus Digit, One (Lit (CHR ''.'')), Plus Digit] s2) = Some m"
    by (auto simp: version_re_def re_match_plus_lit plus_lit_def dot_not_digit atom_ok_Digit
             split: list.splits if_splits)
  let ?b = "takeWhile is_digit s2"
  from m2 obtain s4 where s4: "dropWhile is_digit s2 = CHR ''.'' # s4" and b: "?b \<noteq> []"
    and m4: "re_match [Plus Digit] s4 = Some (takeWhile is_digit s4)"
    and m: "m = ?a @ CHR ''.'' # ?b @ CHR ''.'' # takeWhile is_digit s4"
    and c: "takeWhile is_digit s4 \<noteq> []"
    by (auto simp: re_match_plus_lit plus_lit_def dot_not_digit re_match_plus_last
             atom_ok_Digit split: list.splits if_splits)
  let ?c = "takeWhile is_digit s4"
  let ?rest = "dropWhile is_digit s4"
  have "s = ?a @ dropWhile is_digit s" by simp
  also have "\<dots> = ?a @ CHR ''.'' # (?b @ dropWhile is_digit s2)" by (simp add: s2)
  also have "\<dots> = ?a @ CHR ''.'' # ?b @ CHR ''.'' # (?c @ ?rest)" by (simp add: s4)
  finally have s: "s = m @ ?rest" by (simp add: m)
  have dig: "digits ?a" "digits ?b" "digits ?c"
    using a b c by (auto simp: digits_def list_all_iff dest: set_takeWhileD)
  have "?rest = [] \<or> \<not> is_digit (hd ?rest)"
    by (metis hd_dropWhile)
  with s m dig show ?thesis
    by (intro exI[of _ ?a] exI[of _ ?b] exI[of _ ?c] exI[of _ ?rest]) simp
qed

lemma split_on_not_Nil [simp]: "split_on sep s \<noteq> []"
  by (induction s) (auto split: list.splits)

lemma split_on_no_sep: "sep \<notin> set a \<Longrightarrow> split_on sep a = [a]"
  by (induction a) (auto split: list.splits)

lemma split_on_append:
  "sep \<notin> set a \<Longrightarrow> split_on sep (a @ sep # rest) = a # split_on sep rest"
  by (induction a) (auto split: list.splits)

lemma split_on_cases:
  "split_on sep s = x # xs \<Longrightarrow>
     sep \<notin> set x \<and> ((xs = [] \<and> s = x) \<or> (\<exists>rest. s = x @ sep # rest \<and> split_on sep rest = xs))"
proof (induction s arbitrary: x xs)
  case Nil
  then show ?case by auto
next
  case (Cons c cs)
  show ?case
  proof (cases "c = sep")
    case True
    with Cons.prems show ?thesis by auto
  next
    case False
    obtain y ys where sp: "split_on sep cs = y # ys"
      by (cases "split_on sep cs") auto
    from Cons.IH [OF sp] False Cons.prems sp show ?thesis by auto
  qed
qed

lemma split_on_Cons_Cons:
  "split_on sep s = x # y # ys \<Longrightarrow> \<exists>rest. s = x @ sep # rest \<and> split_on sep rest = y # ys"
  by (drule split_on_cases) blast

lemma split_on_single: "split_on sep s = [x] \<Longrightarrow> s = x"
  by (drule split_on_cases) (auto simp del: split_on.simps)

lemma digits_no_dot: "digits a \<Longrightarrow> CHR ''.'' \<notin> set a"
  using dot_not_digit(1) by (auto simp: digits_def list_all_iff)

lemma is_version_iff:
  "is_version m \<longleftrightarrow> (\<exists>a b c. m = a @ ''.'' @ b @ ''.'' @ c \<and> digits a \<and> digits b \<and> digits c)"
proof
  assume v: "is_version m"
  obtain xs where xs: "split_on (CHR ''.'') m = xs" by simp
  from v xs obtain a b c where sp: "split_on (CHR ''.'') m = [a, b, c]"
    and d: "digits a" "digits b" "digits c"
    unfolding is_version_def by (simp split: list.splits)
  from split_on_Cons_Cons [OF sp] obtain r1 where m: "m = a @ CHR ''.'' # r1"
    and sp1: "split_on (CHR ''.'') r1 = [b, c]" by blast
  from split_on_Cons_Cons [OF sp1] obtain r2 where r1: "r1 = b @ CHR ''.'' # r2"
    and sp2: "split_on (CHR ''.'') r2 = [c]" by blast
  from split_on_single [OF sp2] have r2: "r2 = c" .
  have "m = a @ ''.'' @ b @ ''.'' @ c" unfolding m r1 r2 by simp
  with d show "\<exists>a b c. m = a @ ''.'' @ b @ ''.'' @ c \<and> digits a \<and> digits b \<and> digits c"
    by blast
next
  assume "\<exists>a b c. m = a @ ''.'' @ b @ ''.'' @ c \<and> digits a \<and> digits b \<and> digits c"
  then obtain a b c where m: "m = a @ CHR ''.'' # b @ CHR ''.'' # c"
    and d: "digits a" "digits b" "digits c" by auto
  have "split_on (CHR ''.'') m = [a, b, c]"
    unfolding m using d by (simp add: split_on_append split_on_no_sep digits_no_dot)
  with d show "is_version m"
    by (simp add: is_version_def)
qed

lemma re_search_Some:
  "re_search p s = Some m \<Longrightarrow>
     \<exists>pre post. s = pre @ m @ post \<and> re_match p (m @ post) = Some m
        \<and> (\<forall>k < length pre. re_match p (drop k s) = None)"
proof (induction s)
  case Nil
  then have "re_match p [] = Some m" by simp
  moreover from this have "m = []" using re_match_prefix by fastforce
  ultimately show ?case by simp
next
  case (Cons c cs)
  show ?case
  proof (cases "re_match p (c # cs)")
    case (Some m')
    with Cons.prems have m': "m' = m" by simp
    from re_match_prefix [OF Some] obtain post where "c # cs = m @ post"
      by (auto simp: prefix_def m')
    with Some m' show ?thesis
      by (intro exI[of _ "[]"] exI[of _ post]) simp
  next
    case None
    with Cons.prems have "re_search p cs = Some m" by simp
    from Cons.IH [OF this] obtain pre post where cs: "cs = pre @ m @ post"
      and mt: "re_match p (m @ post) = Some m"
      and early: "\<forall>k < length pre. re_match p (drop k cs) = None" by blast
    have "\<forall>k < length (c # pre). re_match p (drop k (c # cs)) = None"
    proof (intro allI impI)
      fix k assume "k < length (c # pre)"
      then show "re_match p (drop k (c # cs)) = None"
        using None early by (cases k) auto
    qed
    with cs mt show ?thesis
      by (intro exI[of _ "c # pre"] exI[of _ post]) simp
  qed
qed

lemma re_search_None:
  "re_search p s = None \<Longrightarrow> k \<le> length s \<Longrightarrow> re_match p (drop k s) = None"
proof (induction s arbitrary: k)
  case Nil
  then show ?case by simp
next
  case (Cons c cs)
  then show ?case by (cases k) (auto split: option.splits)
qed

lemma re_match_v_complete:
  assumes "is_version m"
  shows "\<exists>m'. re_match (One (Lit (CHR ''v'')) # version_re) (''v'' @ m @ post) = Some m'"
proof -
  from assms obtain a b c where m: "m = a @ ''.'' @ b @ ''.'' @ c"
    and d: "digits a" "digits b" "digits c"
    unfolding is_version_iff by blast
  have "m @ post = a @ ''.'' @ b @ ''.'' @ c @ post" by (simp add: m)
  with re_match_version_complete [OF d, of post]
  have "re_match version_re (m @ post) = Some (a @ ''.'' @ b @ ''.'' @ c @ takeWhile is_digit post)"
    by simp
  then show ?thesis by simp
qed

lemma re_match_v_sound:
  assumes "re_match (One (Lit (CHR ''v'')) # version_re) s = Some m"
  shows "\<exists>m' rest. m = ''v'' @ m' \<and> s = ''v'' @ m' @ rest \<and> is_version m'
           \<and> (rest = [] \<or> \<not> is_digit (hd rest))"
proof -
  from assms obtain s' m' where s: "s = CHR ''v'' # s'" and m: "m = CHR ''v'' # m'"
    and mt: "re_match version_re s' = Some m'"
    by (cases s) (auto split: if_splits)
  from re_match_version_sound [OF mt] obtain a b c rest where
    "s' = m' @ rest" "m' = a @ ''.'' @ b @ ''.'' @ c" "digits a" "digits b" "digits c"
    "rest = [] \<or> \<not> is_digit (hd rest)" by blast
  then have "is_version m'" "s' = m' @ rest" "rest = [] \<or> \<not> is_digit (hd rest)"
    unfolding is_version_iff by blast+
  with s m show ?thesis by auto
qed

section \<open>Properties of the normalization\<close>

lemma filtered_result_restrict:
  assumes "four_keys \<subseteq> dom issue"
  shows "filtered_result issue = Inr (issue |` four_keys)"
proof -
  from assms have "''check'' \<in> dom issue" "''description'' \<in> dom issue"
    "''impact'' \<in> dom issue" "''confidence'' \<in> dom issue"
    unfolding four_keys_def by blast+
  then obtain c d i cf where k: "issue ''check'' = Some c" "issue ''description'' = Some d"
    "issue ''impact'' = Some i" "issue ''confidence'' = Some cf"
    by blast
  have "[''check'' \<mapsto> c, ''description'' \<mapsto> d, ''impact'' \<mapsto> i, ''confidence'' \<mapsto> cf]
          = issue |` four_keys"
    by (rule ext) (simp add: restrict_map_def four_keys_def k)
  then show ?thesis by (simp add: filtered_result_def k)
qed

lemma filter_issues_map:
  "\<forall>issue\<in>set result. four_keys \<subseteq> dom issue \<Longrightarrow>
     filter_issues result acc = Inr (acc @ map (\<lambda>issue. issue |` four_keys) result)"
  by (induction result arbitrary: acc) (simp_all add: filtered_result_restrict)

lemma filter_results_map:
  "\<forall>result\<in>set results. \<forall>issue\<in>set result. four_keys \<subseteq> dom issue \<Longrightarrow>
     filter_results results acc =
       Inr (acc @ map (\<lambda>issue. issue |` four_keys) (concat (filter (\<lambda>result. result \<noteq> []) results)))"
  by (induction results arbitrary: acc) (simp_all add: filter_issues_map)

lemma concat_nonempty_groups: "concat (filter (\<lambda>result. result \<noteq> []) results) = concat results"
  by (induction results) simp_all


section \<open>Properties of the pragma scan and of the staged file\<close>

lemma re_search_version_None:
  assumes "re_search version_re line = None" and "is_version m"
  shows "line \<noteq> a @ m @ b"
proof
  assume eq: "line = a @ m @ b"
  from assms(2) obtain x y z where m: "m = x @ ''.'' @ y @ ''.'' @ z"
    and d: "digits x" "digits y" "digits z"
    unfolding is_version_iff by blast
  have "drop (length a) line = x @ ''.'' @ y @ ''.'' @ z @ b" by (simp add: eq m)
  moreover have "length a \<le> length line" by (simp add: eq)
  ultimately have "re_match version_re (x @ ''.'' @ y @ ''.'' @ z @ b) = None"
    using re_search_None [OF assms(1), of "length a"] by simp
  with re_match_version_complete [OF d, of b] show False by simp
qed

lemma re_search_version_Some:
  assumes "re_search version_re line = Some m"
  shows "\<exists>a b. line = a @ m @ b \<and> is_version m \<and> (b = [] \<or> \<not> is_digit (hd b))
           \<and> (\<forall>a' m' b'. line = a' @ m' @ b' \<and> is_version m' \<longrightarrow> length a \<le> length a')"
proof -
  from re_search_Some [OF assms] obtain a b where line: "line = a @ m @ b"
    and mt: "re_match version_re (m @ b) = Some m"
    and early: "\<forall>k < length a. re_match version_re (drop k line) = None" by blast
  from re_match_version_sound [OF mt] obtain x y z rest where
    eq: "m @ b = m @ rest" and m: "m = x @ ''.'' @ y @ ''.'' @ z"
    and d: "digits x" "digits y" "digits z" and g: "rest = [] \<or> \<not> is_digit (hd rest)"
    by blast
  from m d have v: "is_version m" unfolding is_version_iff by blast
  from eq have rest: "rest = b" by simp
  have "length a \<le> length a'" if eq': "line = a' @ m' @ b'" and v': "is_version m'"
    for a' m' b'
  proof (rule ccontr)
    assume "\<not> length a \<le> length a'"
    then have "length a' < length a" by simp
    with early have none: "re_match version_re (drop (length a') line) = None" by blast
    from v' obtain x' y' z' where m': "m' = x' @ ''.'' @ y' @ ''.'' @ z'"
      and d': "digits x'" "digits y'" "digits z'"
      unfolding is_version_iff by blast
    have "drop (length a') line = x' @ ''.'' @ y' @ ''.'' @ z' @ b'" by (simp add: eq' m')
    with none re_match_version_complete [OF d', of b'] show False by simp
  qed
  with line v g rest show ?thesis by blast
qed



lemma pragma_version_first_line:
  assumes "\<forall>l\<in>set pre. \<not> sublist ''pragma solidity'' l" and "sublist ''pragma solidity'' line"
  shows "pragma_version (pre @ line # post) =
           (case re_search version_re line of None \<Rightarrow> Inl AttributeError | Some m \<Rightarrow> Inr m)"
  using assms by (induction pre) simp_all

lemma concat_chars_of [simp]: "writelines (chars_of s) = s"
  by (induction s) (simp_all add: writelines_def chars_of_def)

lemma resolve_plain_name:
  "plain_name n \<Longrightarrow>
     resolve w n = (case lookup w (cwd w) of
                      None \<Rightarrow> Inl FileNotFoundError
                    | Some (File x) \<Rightarrow> Inl NotADirectoryError
                    | Some Dir \<Rightarrow> Inr (cwd w @ [n]))"
  by (cases n) (auto simp: plain_name_def resolve_def split_on_no_sep split: option.splits node.splits)

lemma lookup_update:
  "q \<noteq> [] \<Longrightarrow> lookup (w\<lparr>tree := AList.update q v (tree w)\<rparr>) p = (if p = q then Some v else lookup w p)"
  by (simp add: lookup_def update_conv')

lemma open_write_read_back:
  assumes "plain_name n" and "open_write w n content = Inr w'"
  shows "open_read w' n = Inr content"
proof -
  from assms have d: "lookup w (cwd w) = Some Dir"
    and w': "w' = w\<lparr>tree := AList.update (cwd w @ [n]) (File content) (tree w)\<rparr>"
    by (auto simp: open_write_def resolve_plain_name split: option.splits node.splits)
  have "lookup w' (cwd w') = Some Dir"
    using d by (simp add: w' lookup_update)
  moreover have "lookup w' (cwd w' @ [n]) = Some (File content)"
    by (simp add: w' lookup_update)
  ultimately show ?thesis using assms(1)
    by (simp add: open_read_def resolve_plain_name)
qed

lemma plain_contract_sol: "plain_name ''contract.sol''"
  by (simp add: plain_name_def)

lemma stage_code_unfold:
  "stage_code ext code w =
     (case enter_directory ''contracts/no-bc/contract'' w of
        (Inl e, w1) \<Rightarrow> (Inl e, w1)
      | (Inr u, w1) \<Rightarrow>
          (case open_write w1 ''contract.sol'' code of
             Inl e \<Rightarrow> (Inl e, w1)
           | Inr w2 \<Rightarrow>
               (case pragma_version (text_lines code) of
                  Inl e \<Rightarrow> (Inl e, w2)
                | Inr solidity_version \<Rightarrow>
                    (case switch_global_version ext solidity_version of
                       Some e \<Rightarrow> (Inl e, w2)
                     | None \<Rightarrow> (Inr (Some ''contract.sol''),
                                 w2\<lparr>solc_version := solidity_version\<rparr>)))))"
proof (cases "enter_directory ''contracts/no-bc/contract'' w")
  case (Pair r w1)
  show ?thesis
  proof (cases r)
    case (Inl e)
    with Pair show ?thesis by (simp add: stage_code_def and_then_def)
  next
    case (Inr u)
    show ?thesis
    proof (cases "open_write w1 ''contract.sol'' code")
      case (Inl e)
      with Pair Inr show ?thesis by (simp add: stage_code_def and_then_def lift_def)
    next
      case wr: (Inr w2)
      from open_write_read_back [OF plain_contract_sol wr]
      have rd: "open_read w2 ''contract.sol'' = Inr code" .
      from Pair Inr wr rd show ?thesis
        by (simp add: stage_code_def and_then_def lift_def lift_value_def solc_switch_def
                 split: sum.splits option.splits)
    qed
  qed
qed

lemma get_contract_code_given_code:
  "code \<noteq> [] \<Longrightarrow>
     get_contract_code ext blockchain contract_address (Some code) w = stage_code ext code w"
  by (simp add: get_contract_code_def falsy_def)

lemma text_lines_nonempty: "text_lines code = pre @ line # post \<Longrightarrow> code \<noteq> []"
  by (auto simp: text_lines_def)



lemma demo_enter:
  "enter_directory ''contracts/no-bc/contract'' demo_world = (Inr (), entered_code_world)"
  by (simp add: enter_directory_def demo_world_def and_then_def lift_def os_path_exists_def
        resolve_def os_makedirs_def os_chdir_def lookup_def entered_code_world_def)

lemma demo_open_write:
  "open_write entered_code_world ''contract.sol'' code = Inr (staged_code_world code)"
  by (simp add: open_write_def resolve_def lookup_def staged_code_world_def
        entered_code_world_def)


section \<open>Staging: evaluation and the scan for the main contract\<close>

lemmas eval_defs = get_contract_code_def stage_response_def stage_single_def stage_multi_def
  enter_directory_def write_source_def solc_switch_def and_then_def lift_def lift_value_def
  os_path_exists_def os_makedirs_def os_chdir_def open_write_def resolve_def lookup_def
  os_path_dirname_def falsy_def py_str_def upper_def upper_char_def writelines_def chars_of_def
  demo_ext_def demo_world_def get_solidity_version_def version_re_def is_digit_def
  Let_def

lemma concat_split_on: "concat (split_on sep s) = filter (\<lambda>c. c \<noteq> sep) s"
  by (induction s) (auto split: list.splits)

lemma stage_single_content:
  "stage_single contract_name contract_code w =
     (case open_write w (contract_name @ ''.sol'')
             ([CHR 0x0A, CHR 0x0A, CHR 0x0A, CHR 0x0A]
                @ filter (\<lambda>c. c \<noteq> CHR 0x0A) contract_code) of
        Inl e \<Rightarrow> (Inl e, w)
      | Inr w' \<Rightarrow> (Inr (Some (contract_name @ ''.sol'')), w'))"
  by (simp add: stage_single_def writelines_def concat_split_on and_then_def lift_def
           split: sum.splits)

lemma find_main_contract_last:
  "find_main_contract contract_name main_contract files =
     (case filter (\<lambda>(file_name, content). sublist (''contract '' @ contract_name) content) files of
        [] \<Rightarrow> main_contract
      | matching \<Rightarrow> fst (last matching))"
  by (induction files arbitrary: main_contract) (auto split: list.splits)

lemmas orch_defs = analyze_contract_def analyze_staged_def analyze_contract_code_def
  delete_contract_directory_def os_listdir_def os_path_join_def os_path_isfile_def
  os_path_isdir_def os_path_islink_def os_unlink_def shutil_rmtree_def print_def

lemma found_entry_is_torn_down:
  "analyze_contract (demo_ext (multi_record ''Token'') [(''src/Token.sol'', ''contract Token {}'')])
     \<lparr>arg_blockchain = Some ''eth'', arg_contract = Some ''0xabc'', arg_code = None\<rparr> demo_world
     = (Inr (Result (map (\<lambda>issue. issue |` four_keys) (concat demo_groups))),
        \<lparr>tree = [([''app''], Dir), ([''app'', ''contracts''], Dir),
                 ([''app'', ''contracts'', ''eth''], Dir)],
         cwd = [''app''], undeletable = [], stdout = [], solc_version = ''0.8.19''\<rparr>)"
proof -
  have keys: "\<forall>result\<in>set demo_groups. \<forall>issue\<in>set result. four_keys \<subseteq> dom issue"
    by (simp add: demo_groups_def four_keys_def)
  have norm: "filter_results demo_groups [] =
      Inr (map (\<lambda>issue. issue |` four_keys) (concat demo_groups))"
    using filter_results_map [OF keys, of "[]"] by (simp add: concat_nonempty_groups)
  show ?thesis
    by (simp add: eval_defs orch_defs multi_record_def sublist_code norm)
qed

lemma nested_files_round_trip:
  "\<exists>w. get_contract_code
         (demo_ext (multi_record ''Token'')
            [(''src/Token.sol'', ''contract Token {}''),
             (''src/lib/Math.sol'', ''library Math {}'')])
         (Some ''eth'') (Some ''0xabc'') None demo_world = (Inr (Some ''src/Token.sol''), w)
     \<and> open_read w ''src/Token.sol'' = Inr ''contract Token {}''
     \<and> open_read w ''src/lib/Math.sol'' = Inr ''library Math {}''"
  by (simp add: eval_defs multi_record_def sublist_code open_read_def)


section \<open>Properties of the file system, of staging and of teardown\<close>






lemma lookup_print [simp]: "lookup (print l w) p = lookup w p"
  by (simp add: lookup_def print_def)










lemma lookup_cwd_update [simp]: "lookup (w\<lparr>cwd := d\<rparr>) p = lookup w p"
  by (simp add: lookup_def)

lemma blocked_cwd_update [simp]: "blocked (w\<lparr>cwd := d\<rparr>) q = blocked w q"
  by (simp add: blocked_def split: option.splits node.splits)

lemma removes_cwd_update [simp]: "removes (w\<lparr>cwd := d\<rparr>) q p = removes w q p"
  by (simp add: removes_def split: option.splits node.splits)









lemma kept_refl [simp]: "kept w w"
  by (simp add: kept_def)


















lemma three_below_kept: "three_below w0 w1 \<Longrightarrow> kept w1 w \<Longrightarrow> three_below w0 w"
  by (auto simp: three_below_def kept_def)




lemma and_then_Inr:
  "and_then m f = (Inr y, w) \<Longrightarrow> \<exists>x w1. m = (Inr x, w1) \<and> f x w1 = (Inr y, w)"
  by (cases m) (auto simp: and_then_def split: sum.splits)











section \<open>Staging of several files: reading back, and the file without a directory\<close>

text \<open>
  A file name without a slash is never staged (\<open>write_source_top_level\<close>). When the
  staging loop ends without an exception and no two file names resolve to the same path,
  every file reads back with the content of the mapping (\<open>stage_files_round_trip\<close>).
\<close>

lemma dirname_no_slash: "CHR ''/'' \<notin> set file_name \<Longrightarrow> os_path_dirname file_name = []"
proof -
  assume "CHR ''/'' \<notin> set file_name"
  then have dw: "dropWhile (\<lambda>c. c \<noteq> CHR ''/'') (rev file_name) = []"
    by (auto simp: dropWhile_eq_Nil_conv)
  show ?thesis unfolding os_path_dirname_def dw by simp
qed

lemma write_source_top_level:
  "CHR ''/'' \<notin> set file_name \<Longrightarrow>
     write_source file_name contract_lines w = (Inl FileNotFoundError, w)"
  by (simp add: write_source_def dirname_no_slash os_path_exists_def resolve_def
        os_makedirs_def and_then_def)

lemma walk_stable:
  "\<forall>p. lookup w p = Some Dir \<longrightarrow> lookup w' p = Some Dir \<Longrightarrow> walk w cur cs = Inr q
     \<Longrightarrow> walk w' cur cs = Inr q"
proof (induction cs arbitrary: cur)
  case Nil
  then show ?case by simp
next
  case (Cons c cs)
  from Cons.prems(2) have dir: "lookup w cur = Some Dir"
    by (auto split: option.splits node.splits)
  with Cons.prems(1) have dir': "lookup w' cur = Some Dir" by blast
  from Cons.prems(2) dir Cons.IH [OF Cons.prems(1)] dir' show ?case
    by (auto split: if_splits)
qed

lemma resolve_stable:
  "\<forall>p. lookup w p = Some Dir \<longrightarrow> lookup w' p = Some Dir \<Longrightarrow> cwd w' = cwd w
     \<Longrightarrow> resolve w f = Inr q \<Longrightarrow> resolve w' f = Inr q"
  using walk_stable [of w w'] by (auto simp: resolve_def split: if_splits)

lemma extends_refl [simp]: "extends w w"
  by (simp add: extends_def)

lemma extends_trans: "extends w w1 \<Longrightarrow> extends w1 w2 \<Longrightarrow> extends w w2"
  by (simp add: extends_def)

lemma lookup_append_new:
  "lookup w k = None \<Longrightarrow> lookup w p = Some v
     \<Longrightarrow> lookup (w\<lparr>tree := tree w @ [(k, Dir)]\<rparr>) p = Some v"
  by (cases "p = []") (auto simp: lookup_def map_add_def split: option.splits if_splits)

lemma makedirs_walk_extends: "extends w (snd (makedirs_walk cur cs w))"
proof (induction cs arbitrary: cur w)
  case Nil
  then show ?case by simp
next
  case (Cons c cs)
  note IH = Cons.IH
  show ?case
  proof (cases "lookup w cur = Some Dir")
    case False
    then show ?thesis by (auto split: option.splits node.splits)
  next
    case dir: True
    consider (same) "c = [] \<or> c = ''.''" | (up) "c = ''..''"
      | (down) "c \<noteq> []" "c \<noteq> ''.''" "c \<noteq> ''..''" by blast
    then show ?thesis
    proof cases
      case same
      with dir IH [of w cur] show ?thesis by auto
    next
      case up
      with dir IH [of w "butlast cur"] show ?thesis by auto
    next
      case down
      show ?thesis
      proof (cases "lookup w (cur @ [c]) = None")
        case False
        with down dir IH [of w "cur @ [c]"] show ?thesis by auto
      next
        case True
        let ?w1 = "w\<lparr>tree := tree w @ [(cur @ [c], Dir)]\<rparr>"
        have e1: "extends w ?w1"
          using True by (simp add: extends_def lookup_append_new)
        have "makedirs_walk cur (c # cs) w = makedirs_walk (cur @ [c]) cs ?w1"
          using down dir True by simp
        with extends_trans [OF e1 IH [of ?w1 "cur @ [c]"]] show ?thesis by simp
      qed
    qed
  qed
qed

lemma os_makedirs_extends: "extends w (snd (os_makedirs w p))"
  using makedirs_walk_extends by (auto simp: os_makedirs_def)

lemma write_source_effect:
  assumes "write_source file_name content w = (Inr u, w')"
  shows "\<exists>q. resolve w' file_name = Inr q \<and> lookup w' q = Some (File content)
           \<and> cwd w' = cwd w
           \<and> (\<forall>p v. p \<noteq> q \<and> lookup w p = Some v \<longrightarrow> lookup w' p = Some v)
           \<and> (\<forall>p. lookup w p = Some Dir \<longrightarrow> lookup w' p = Some Dir)"
proof -
  let ?m = "if \<not> os_path_exists w (os_path_dirname file_name)
        then os_makedirs w (os_path_dirname file_name) else (Inr (), w)"
  obtain r w1 where m: "?m = (r, w1)" by (cases ?m)
  have e: "extends w w1"
    using os_makedirs_extends [of w "os_path_dirname file_name"] m by (auto split: if_splits)
  from assms m have ow: "open_write w1 file_name content = Inr w'"
    by (cases r; cases "open_write w1 file_name content")
       (auto simp: write_source_def and_then_def lift_def)
  then obtain q where r1: "resolve w1 file_name = Inr q" and nd: "lookup w1 q \<noteq> Some Dir"
    and w': "w' = w1\<lparr>tree := AList.update q (File content) (tree w1)\<rparr>"
    by (auto simp: open_write_def split: sum.splits option.splits node.splits)
  from nd have q: "q \<noteq> []" by (auto simp: lookup_def)
  have lk: "lookup w' p = (if p = q then Some (File content) else lookup w1 p)" for p
    by (simp add: w' lookup_update [OF q])
  have dirs1: "\<forall>p. lookup w1 p = Some Dir \<longrightarrow> lookup w' p = Some Dir"
    using nd by (auto simp: lk)
  have "cwd w' = cwd w1" by (simp add: w')
  from resolve_stable [OF dirs1 this r1] have r': "resolve w' file_name = Inr q" .
  have "lookup w' p = Some v" if "p \<noteq> q \<and> lookup w p = Some v" for p v
    using that e by (simp add: lk extends_def)
  moreover have "lookup w' p = Some Dir" if "lookup w p = Some Dir" for p
    using that e dirs1 by (auto simp: extends_def)
  moreover have "cwd w' = cwd w" using e by (simp add: w' extends_def)
  ultimately show ?thesis using r' lk by auto
qed

lemma stage_files_effect:
  assumes "stage_files main_contract files w = (Inr u, w')"
  shows "cwd w' = cwd w
       \<and> (\<forall>p. lookup w p = Some Dir \<longrightarrow> lookup w' p = Some Dir)
       \<and> (\<forall>p v. lookup w p = Some v \<and> (\<forall>f\<in>set files. resolve w' (fst f) \<noteq> Inr p)
              \<longrightarrow> lookup w' p = Some v)"
  using assms
proof (induction files arbitrary: w u)
  case Nil
  then show ?case by simp
next
  case (Cons f files)
  obtain file_name content where f: "f = (file_name, content)" by (cases f)
  from Cons.prems obtain u1 w1 where
    ws: "write_source file_name content w = (Inr u1, w1)"
    and rest: "stage_files main_contract files w1 = (Inr u, w')"
    unfolding f stage_files.simps if_cancel by (auto dest!: and_then_Inr)
  from write_source_effect [OF ws] obtain q where
    r1: "resolve w1 file_name = Inr q" and cw1: "cwd w1 = cwd w"
    and other: "\<forall>p v. p \<noteq> q \<and> lookup w p = Some v \<longrightarrow> lookup w1 p = Some v"
    and dirs1: "\<forall>p. lookup w p = Some Dir \<longrightarrow> lookup w1 p = Some Dir"
    by blast
  from Cons.IH [OF rest] have cw': "cwd w' = cwd w1"
    and dirs': "\<forall>p. lookup w1 p = Some Dir \<longrightarrow> lookup w' p = Some Dir"
    and files': "\<forall>p v. lookup w1 p = Some v \<and> (\<forall>f\<in>set files. resolve w' (fst f) \<noteq> Inr p)
              \<longrightarrow> lookup w' p = Some v"
    by blast+
  from resolve_stable [OF dirs' cw' r1] have r': "resolve w' file_name = Inr q" .
  have "lookup w' p = Some v"
    if h: "lookup w p = Some v \<and> (\<forall>g\<in>set (f # files). resolve w' (fst g) \<noteq> Inr p)" for p v
  proof -
    from h r' have "p \<noteq> q" by (auto simp: f)
    with h other have "lookup w1 p = Some v" by blast
    with h files' show ?thesis by auto
  qed
  with cw' cw1 dirs1 dirs' show ?case by auto
qed

lemma stage_files_round_trip:
  assumes "stage_files main_contract files w = (Inr u, w')"
    and "distinct (map (\<lambda>f. resolve w' (fst f)) files)"
  shows "\<forall>f\<in>set files. open_read w' (fst f) = Inr (snd f)"
  using assms
proof (induction files arbitrary: w u)
  case Nil
  then show ?case by simp
next
  case (Cons f files)
  obtain file_name content where f: "f = (file_name, content)" by (cases f)
  from Cons.prems(1) obtain u1 w1 where
    ws: "write_source file_name content w = (Inr u1, w1)"
    and rest: "stage_files main_contract files w1 = (Inr u, w')"
    unfolding f stage_files.simps if_cancel by (auto dest!: and_then_Inr)
  from Cons.prems(2) have d: "distinct (map (\<lambda>f. resolve w' (fst f)) files)"
    and fresh: "\<forall>g\<in>set files. resolve w' (fst g) \<noteq> resolve w' file_name"
    by (force simp: f image_iff)+
  from write_source_effect [OF ws] obtain q where
    r1: "resolve w1 file_name = Inr q" and c1: "lookup w1 q = Some (File content)"
    by blast
  from stage_files_effect [OF rest] have cw': "cwd w' = cwd w1"
    and dirs': "\<forall>p. lookup w1 p = Some Dir \<longrightarrow> lookup w' p = Some Dir"
    and files': "\<forall>p v. lookup w1 p = Some v \<and> (\<forall>f\<in>set files. resolve w' (fst f) \<noteq> Inr p)
              \<longrightarrow> lookup w' p = Some v"
    by blast+
  from resolve_stable [OF dirs' cw' r1] have r': "resolve w' file_name = Inr q" .
  with fresh have "\<forall>g\<in>set files. resolve w' (fst g) \<noteq> Inr q" by simp
  with files' c1 have "lookup w' q = Some (File content)" by blast
  with r' have "open_read w' file_name = Inr content" by (simp add: open_read_def)
  with Cons.IH [OF rest d] show ?case by (simp add: f)
qed


section \<open>Claims\<close>

text \<open>
  C1. A single-file answer whose source is \<^verbatim>\<open>// token\ncontract Token {}\<close>, for the
  contract \<^verbatim>\<open>Token\<close>: one file \<^verbatim>\<open>Token.sol\<close> is written and its name is returned, but
  its content is four newlines followed by \<^verbatim>\<open>// tokencontract Token {}\<close>: the two lines
  of the source are joined, so the content is not the four blank lines followed by the
  source.
\<close>

theorem single_file_joins_lines:
  "get_contract_code (demo_ext single_record []) (Some ''eth'') (Some ''0xabc'') None demo_world
     = (Inr (Some ''Token.sol''), staged_single_world)
 \<and> open_read staged_single_world ''Token.sol''
     = Inr ([CHR 0x0A, CHR 0x0A, CHR 0x0A, CHR 0x0A] @ ''// tokencontract Token {}'')
 \<and> [CHR 0x0A, CHR 0x0A, CHR 0x0A, CHR 0x0A] @ ''// tokencontract Token {}''
     \<noteq> [CHR 0x0A, CHR 0x0A, CHR 0x0A, CHR 0x0A] @ SourceCode single_record"
  by (simp add: eval_defs single_record_def entered_world_def staged_single_world_def
        open_read_def)


text \<open>
  C2. A multi-file answer whose only file is \<^verbatim>\<open>Token.sol\<close>, with no directory part:
  staging raises \<open>FileNotFoundError\<close> (from \<^verbatim>\<open>os.makedirs("")\<close>), the file is not written
  and cannot be read back.
\<close>

theorem top_level_file_not_staged:
  "get_contract_code (demo_ext (multi_record ''Token'') [(''Token.sol'', ''contract Token {}'')])
     (Some ''eth'') (Some ''0xabc'') None demo_world
     = (Inl FileNotFoundError, entered_world)
 \<and> open_read entered_world ''Token.sol'' = Inl FileNotFoundError"
  by (simp add: eval_defs multi_record_def entered_world_def sublist_code open_read_def)


text \<open>
  C3. A multi-file answer whose only file is \<^verbatim>\<open>Other.sol\<close>, which does not contain
  \<^verbatim>\<open>contract Token\<close>: the request for the contract \<^verbatim>\<open>Token\<close> ends with the exception
  \<open>FileNotFoundError\<close>, not with the answer \<^verbatim>\<open>Unable to retrieve contract code\<close>.
\<close>

theorem entry_not_found_crashes_on_top_level_file:
  "analyze_contract (demo_ext (multi_record ''Token'') [(''Other.sol'', ''contract Other {}'')])
     \<lparr>arg_blockchain = Some ''eth'', arg_contract = Some ''0xabc'', arg_code = None\<rparr> demo_world
     = (Inl FileNotFoundError, entered_world)"
  by (simp add: eval_defs orch_defs multi_record_def entered_world_def sublist_code)


text \<open>
  C4. A multi-file answer whose only file \<^verbatim>\<open>src/Token.sol\<close> does not contain
  \<^verbatim>\<open>contract Vault\<close>: the request for the contract \<^verbatim>\<open>Vault\<close> is answered with
  \<^verbatim>\<open>Unable to retrieve contract code\<close> and no teardown: the working directory stays in
  the contract's directory and the staged file is still there.
\<close>

theorem entry_not_found_skips_teardown:
  "analyze_contract (demo_ext (multi_record ''Vault'') [(''src/Token.sol'', ''contract Token {}'')])
     \<lparr>arg_blockchain = Some ''eth'', arg_contract = Some ''0xabc'', arg_code = None\<rparr> demo_world
     = (Inr (Error400 ''Unable to retrieve contract code''), staged_multi_world)
 \<and> cwd staged_multi_world = [''app'', ''contracts'', ''eth'', ''0xabc'']
 \<and> cwd staged_multi_world \<noteq> cwd demo_world
 \<and> open_read staged_multi_world ''src/Token.sol'' = Inr ''contract Token {}''"
  by (simp add: eval_defs orch_defs multi_record_def entered_world_def staged_multi_world_def
        sublist_code open_read_def)










text \<open>
  C7. For every compiler-version string, \<open>get_solidity_version\<close> returns the first
  substring of the form \<^verbatim>\<open>v<digits>.<digits>.<digits>\<close> without its leading \<^verbatim>\<open>v\<close>:
  the match starts at the leftmost position where one exists and takes the longest run
  of digits for the last component. When the string has no such substring the result
  is the empty string.
\<close>

theorem get_solidity_version_first_match:
  "(\<exists>pre m post.
       compiler_version = pre @ ''v'' @ m @ post \<and> is_version m
     \<and> (post = [] \<or> \<not> is_digit (hd post))
     \<and> (\<forall>pre' m' post'. compiler_version = pre' @ ''v'' @ m' @ post' \<and> is_version m'
            \<longrightarrow> length pre \<le> length pre')
     \<and> get_solidity_version compiler_version = m)
   \<or> ((\<forall>pre m post. is_version m \<longrightarrow> compiler_version \<noteq> pre @ ''v'' @ m @ post)
      \<and> get_solidity_version compiler_version = [])"
proof (cases "re_search (One (Lit (CHR ''v'')) # version_re) compiler_version")
  case None
  have "compiler_version \<noteq> pre @ ''v'' @ m @ post" if v: "is_version m" for pre m post
  proof
    assume eq: "compiler_version = pre @ ''v'' @ m @ post"
    then have "drop (length pre) compiler_version = ''v'' @ m @ post" by simp
    moreover have "length pre \<le> length compiler_version" by (simp add: eq)
    ultimately have "re_match (One (Lit (CHR ''v'')) # version_re) (''v'' @ m @ post) = None"
      using re_search_None [OF None, of "length pre"] by simp
    with re_match_v_complete [OF v, of post] show False by simp
  qed
  moreover have "get_solidity_version compiler_version = []"
    by (simp add: get_solidity_version_def None)
  ultimately show ?thesis by blast
next
  case (Some mv)
  from re_search_Some [OF Some] obtain pre post where cv: "compiler_version = pre @ mv @ post"
    and mt: "re_match (One (Lit (CHR ''v'')) # version_re) (mv @ post) = Some mv"
    and early: "\<forall>k < length pre.
        re_match (One (Lit (CHR ''v'')) # version_re) (drop k compiler_version) = None"
    by blast
  from re_match_v_sound [OF mt] obtain m rest where mv: "mv = ''v'' @ m"
    and eq: "mv @ post = ''v'' @ m @ rest" and v: "is_version m"
    and greedy: "rest = [] \<or> \<not> is_digit (hd rest)" by blast
  from eq mv have rest: "rest = post" by simp
  have first: "length pre \<le> length pre'"
    if eq': "compiler_version = pre' @ ''v'' @ m' @ post'" and v': "is_version m'"
    for pre' m' post'
  proof (rule ccontr)
    assume "\<not> length pre \<le> length pre'"
    then have "length pre' < length pre" by simp
    with early have "re_match (One (Lit (CHR ''v'')) # version_re)
        (drop (length pre') compiler_version) = None" by blast
    moreover have "drop (length pre') compiler_version = ''v'' @ m' @ post'"
      by (simp add: eq')
    ultimately show False using re_match_v_complete [OF v', of post'] by simp
  qed
  have res: "get_solidity_version compiler_version = m"
    by (simp add: get_solidity_version_def Some mv)
  have "compiler_version = pre @ ''v'' @ m @ post" by (simp add: cv mv)
  with v greedy rest first res show ?thesis by blast
qed

theorem get_solidity_version_first_match_witness:
  "get_solidity_version ''v0.8.19+commit.7dd6d404'' = ''0.8.19''
   \<and> (\<exists>pre post. ''v0.8.19+commit.7dd6d404''
          = pre @ ''v'' @ get_solidity_version ''v0.8.19+commit.7dd6d404'' @ post
        \<and> is_version (get_solidity_version ''v0.8.19+commit.7dd6d404''))"
proof -
  have v: "is_version ''0.8.19''"
    by (simp add: is_version_def digits_def is_digit_def)
  have "''v0.8.19+commit.7dd6d404'' = [] @ ''v'' @ ''0.8.19'' @ ''+commit.7dd6d404''"
    by simp
  with v have ex:
    "\<exists>pre m post. is_version m \<and> ''v0.8.19+commit.7dd6d404'' = pre @ ''v'' @ m @ post"
    by blast
  from get_solidity_version_first_match [of "''v0.8.19+commit.7dd6d404''"] ex
  obtain pre m post where eq: "''v0.8.19+commit.7dd6d404'' = pre @ ''v'' @ m @ post"
    and vm: "is_version m"
    and res: "get_solidity_version ''v0.8.19+commit.7dd6d404'' = m"
    by blast
  from eq vm res have "\<exists>pre post. ''v0.8.19+commit.7dd6d404''
          = pre @ ''v'' @ get_solidity_version ''v0.8.19+commit.7dd6d404'' @ post
        \<and> is_version (get_solidity_version ''v0.8.19+commit.7dd6d404'')"
    by blast
  moreover have "get_solidity_version ''v0.8.19+commit.7dd6d404'' = ''0.8.19''"
    by (simp add: get_solidity_version_def version_re_def is_digit_def)
  ultimately show ?thesis by blast
qed


text \<open>
  C8. For every sequence of result groups of the analysis engine whose findings carry
  the four keys, \<open>analyze_contract_code\<close> returns, in order, one finding for every raw
  finding of every non-empty group; each is the raw finding restricted to the keys
  \<^verbatim>\<open>check\<close>, \<^verbatim>\<open>description\<close>, \<^verbatim>\<open>impact\<close> and \<^verbatim>\<open>confidence\<close>, so it has exactly these
  four keys with the raw values. Empty groups contribute nothing.
\<close>

theorem analyze_contract_code_normalizes:
  assumes "run_slither ext w contract = Inr results"
    and "\<forall>result\<in>set results. \<forall>issue\<in>set result. four_keys \<subseteq> dom issue"
  shows "\<exists>findings.
           analyze_contract_code ext contract w = Inr findings
         \<and> findings = map (\<lambda>issue. issue |` four_keys)
                        (concat (filter (\<lambda>result. result \<noteq> []) results))
         \<and> length findings = length (concat results)
         \<and> (\<forall>finding\<in>set findings. dom finding = four_keys)"
proof -
  let ?raw = "concat (filter (\<lambda>result. result \<noteq> []) results)"
  let ?findings = "map (\<lambda>issue. issue |` four_keys) ?raw"
  have run: "analyze_contract_code ext contract w = Inr ?findings"
    using assms by (simp add: analyze_contract_code_def filter_results_map)
  have len: "length ?findings = length (concat results)"
    by (simp add: concat_nonempty_groups)
  have "dom finding = four_keys" if "finding \<in> set ?findings" for finding
  proof -
    from that obtain issue where f: "finding = issue |` four_keys"
      and "issue \<in> set (concat results)"
      by (auto simp: concat_nonempty_groups)
    then obtain result where "result \<in> set results" "issue \<in> set result" by auto
    with assms(2) have "four_keys \<subseteq> dom issue" by blast
    then have "dom issue \<inter> four_keys = four_keys" by blast
    with f show ?thesis by simp
  qed
  with run len show ?thesis by blast
qed

theorem analyze_contract_code_normalizes_witness:
  "\<exists>findings.
      analyze_contract_code (demo_ext no_record []) ''Token.sol'' demo_world = Inr findings
    \<and> length findings = 2
    \<and> (\<forall>finding\<in>set findings. dom finding = four_keys)"
proof -
  have run: "run_slither (demo_ext no_record []) demo_world ''Token.sol'' = Inr demo_groups"
    by (simp add: demo_ext_def)
  have keys: "\<forall>result\<in>set demo_groups. \<forall>issue\<in>set result. four_keys \<subseteq> dom issue"
    by (simp add: demo_groups_def four_keys_def)
  have "length (concat demo_groups) = 2" by (simp add: demo_groups_def)
  with analyze_contract_code_normalizes [OF run keys] show ?thesis by auto
qed


text \<open>
  C9. When the request gives no blockchain or no address, and no code, the answer is
  the error \<^verbatim>\<open>Missing blockchain or contract address\<close> with status 400, and the process
  state is untouched: no directory is created, no file is written, the working directory
  is the same.
\<close>

theorem missing_identifiers:
  assumes "falsy (arg_blockchain req) \<or> falsy (arg_contract req)" and "falsy (arg_code req)"
  shows "analyze_contract ext req w =
           (Inr (Error400 ''Missing blockchain or contract address''), w)"
  using assms by (simp add: analyze_contract_def Let_def)

theorem missing_identifiers_witness:
  "analyze_contract (demo_ext no_record [])
     \<lparr>arg_blockchain = Some ''eth'', arg_contract = None, arg_code = Some []\<rparr> demo_world
   = (Inr (Error400 ''Missing blockchain or contract address''), demo_world)"
  using missing_identifiers [of "\<lparr>arg_blockchain = Some ''eth'', arg_contract = None,
    arg_code = Some []\<rparr>" "demo_ext no_record []" demo_world]
  by (simp add: falsy_def)


text \<open>
  C10. For given code whose first line containing \<^verbatim>\<open>pragma solidity\<close> holds no
  three-component version, \<open>get_contract_code\<close> raises: in every process state the
  result is an exception, it is \<open>AttributeError\<close> once the file has been staged, and
  \<open>analyze_contract\<close> ends with an exception too, not with an answer.
\<close>

theorem pragma_without_version_raises:
  assumes "text_lines code = pre @ line # post"
    and "\<forall>l\<in>set pre. \<not> sublist ''pragma solidity'' l"
    and "sublist ''pragma solidity'' line"
    and "\<forall>a m b. is_version m \<longrightarrow> line \<noteq> a @ m @ b"
  shows "(\<exists>e. fst (get_contract_code ext blockchain contract_address (Some code) w) = Inl e)
       \<and> (enter_directory ''contracts/no-bc/contract'' w = (Inr (), w1)
            \<and> open_write w1 ''contract.sol'' code = Inr w2
          \<longrightarrow> get_contract_code ext blockchain contract_address (Some code) w
                = (Inl AttributeError, w2))
       \<and> ((falsy (arg_blockchain req) \<or> falsy (arg_contract req))
            \<and> \<not> falsy (arg_code req) \<and> b64decode ext (the (arg_code req)) = Inr code
          \<longrightarrow> (\<exists>e. fst (analyze_contract ext req w) = Inl e))"
proof -
  have code: "code \<noteq> []" using assms(1) by (rule text_lines_nonempty)
  have "re_search version_re line = None"
  proof (cases "re_search version_re line")
    case (Some m)
    from re_search_version_Some [OF Some] assms(4) show ?thesis by blast
  qed simp
  with assms have pv: "pragma_version (text_lines code) = Inl AttributeError"
    by (simp add: pragma_version_first_line)
  have raises: "\<exists>e. fst (get_contract_code ext bc addr (Some code) w') = Inl e" for bc addr w'
    using code pv
    by (simp add: get_contract_code_given_code stage_code_unfold split: prod.splits sum.splits)
  have exact: "get_contract_code ext blockchain contract_address (Some code) w
                = (Inl AttributeError, w2)"
    if "enter_directory ''contracts/no-bc/contract'' w = (Inr (), w1)
            \<and> open_write w1 ''contract.sol'' code = Inr w2"
    using that code pv by (simp add: get_contract_code_given_code stage_code_unfold)
  have "\<exists>e. fst (analyze_contract ext req w) = Inl e"
    if h: "(falsy (arg_blockchain req) \<or> falsy (arg_contract req))
            \<and> \<not> falsy (arg_code req) \<and> b64decode ext (the (arg_code req)) = Inr code"
  proof -
    let ?w = "print (Line code) (print (Line (the (arg_code req))) w)"
    from raises [of "arg_blockchain req" "arg_contract req" ?w] obtain e where
      "fst (get_contract_code ext (arg_blockchain req) (arg_contract req) (Some code) ?w) = Inl e"
      by blast
    with h show ?thesis
      by (auto simp: analyze_contract_def Let_def and_then_def lift_value_def analyze_staged_def
               split: prod.splits sum.splits)
  qed
  with raises exact show ?thesis by blast
qed

theorem pragma_without_version_raises_witness:
  "get_contract_code (demo_ext no_record []) None None (Some ''pragma solidity ^0.8;'')
      demo_world
    = (Inl AttributeError, staged_code_world ''pragma solidity ^0.8;'')
 \<and> (\<exists>e. fst (analyze_contract (demo_ext no_record [])
               \<lparr>arg_blockchain = None, arg_contract = None,
                arg_code = Some ''cHJhZ21hIHNvbGlkaXR5IF4wLjg7''\<rparr> demo_world) = Inl e)"
proof -
  let ?code = "''pragma solidity ^0.8;''"
  let ?req = "\<lparr>arg_blockchain = None, arg_contract = None,
                arg_code = Some ''cHJhZ21hIHNvbGlkaXR5IF4wLjg7''\<rparr>"
  have lines: "text_lines ?code = [] @ ?code # []" by (simp add: text_lines_def)
  have pre: "\<forall>l\<in>set []. \<not> sublist ''pragma solidity'' l" by simp
  have sub: "sublist ''pragma solidity'' ?code" by (simp add: sublist_code)
  have none: "re_search version_re ?code = None"
    by (simp add: version_re_def is_digit_def)
  have nov: "\<forall>a m b. is_version m \<longrightarrow> ?code \<noteq> a @ m @ b"
    using re_search_version_None [OF none] by blast
  have req: "(falsy (arg_blockchain ?req) \<or> falsy (arg_contract ?req))
      \<and> \<not> falsy (arg_code ?req)
      \<and> b64decode (demo_ext no_record []) (the (arg_code ?req)) = Inr ?code"
    by (simp add: falsy_def demo_ext_def demo_base64_def)
  from pragma_without_version_raises [OF lines pre sub nov,
      where ext = "demo_ext no_record []" and blockchain = None and contract_address = None
        and w = demo_world and ?w1.0 = entered_code_world
        and ?w2.0 = "staged_code_world ?code" and req = ?req]
    demo_enter demo_open_write req
  show ?thesis by blast
qed

end
